theory Spec2Isabelle
  imports Main
begin

section \<open>Values of the script\<close>

text \<open>
  The script \<^verbatim>\<open>world_music_events.py\<close> works on what \<^verbatim>\<open>json.loads\<close> returns: \<^verbatim>\<open>None\<close>,
  booleans, numbers, strings, lists and dictionaries with string keys. A dictionary is an
  association list in insertion order, read with \<open>map_of\<close>. Strings are lists of 8-bit
  characters, read as the code points 0 to 255; numbers are the integers (a JSON number
  with a fraction has no value in this model).
\<close>

datatype json =
    JNull
  | JBool bool
  | JInt int
  | JStr string
  | JArr "json list"
  | JObj "(string \<times> json) list"

text \<open>The exceptions the script can raise, as values.\<close>

datatype error =
    AttributeError
  | TypeError
  | KeyError
  | IndexError
  | ValueError
  | URLError
  | JSONDecodeError

text \<open>A normalized record is the dictionary that \<^verbatim>\<open>normalize_row\<close> returns.\<close>

type_synonym row = "(string \<times> json) list"

text \<open>Sequencing of steps that may raise: the first exception ends the computation.\<close>

definition and_then :: "error + 'a \<Rightarrow> ('a \<Rightarrow> error + 'b) \<Rightarrow> error + 'b" where
  "and_then m f = (case m of Inl err \<Rightarrow> Inl err | Inr x \<Rightarrow> f x)"

subsection \<open>Python's operations on these values\<close>

text \<open>Truth value of an object, as \<^verbatim>\<open>or\<close>, \<^verbatim>\<open>if\<close> and \<^verbatim>\<open>bool()\<close> test it.\<close>

fun truthy :: "json \<Rightarrow> bool" where
  "truthy JNull = False"
| "truthy (JBool b) = b"
| "truthy (JInt i) = (i \<noteq> 0)"
| "truthy (JStr s) = (s \<noteq> [])"
| "truthy (JArr xs) = (xs \<noteq> [])"
| "truthy (JObj kvs) = (kvs \<noteq> [])"

text \<open>\<^verbatim>\<open>a or b\<close>.\<close>

definition py_or :: "json \<Rightarrow> json \<Rightarrow> json" where
  "py_or a b = (if truthy a then a else b)"

text \<open>\<^verbatim>\<open>isinstance(a, dict)\<close>.\<close>

fun is_dict :: "json \<Rightarrow> bool" where
  "is_dict (JObj kvs) = True"
| "is_dict _ = False"

text \<open>
  \<^verbatim>\<open>d.get(k)\<close>: the value, or \<^verbatim>\<open>None\<close> for a missing key. Only a dictionary has the
  method; on every other value the attribute lookup raises.
\<close>

fun py_get :: "json \<Rightarrow> string \<Rightarrow> error + json" where
  "py_get (JObj kvs) k = Inr (case map_of kvs k of None \<Rightarrow> JNull | Some v \<Rightarrow> v)"
| "py_get _ k = Inl AttributeError"

text \<open>
  \<^verbatim>\<open>x[0]\<close>: the first element of a list, the first character of a string; an empty
  sequence raises IndexError, a dictionary (whose keys are strings) has no key 0, and
  the other values cannot be subscripted.
\<close>

fun py_first :: "json \<Rightarrow> error + json" where
  "py_first (JArr []) = Inl IndexError"
| "py_first (JArr (x # xs)) = Inr x"
| "py_first (JStr []) = Inl IndexError"
| "py_first (JStr (c # cs)) = Inr (JStr [c])"
| "py_first (JObj kvs) = Inl KeyError"
| "py_first _ = Inl TypeError"

text \<open>
  \<^verbatim>\<open>for a in x\<close>: the elements of a list, the characters of a string, the keys of a
  dictionary; other values are not iterable.
\<close>

fun py_iter :: "json \<Rightarrow> error + json list" where
  "py_iter (JArr xs) = Inr xs"
| "py_iter (JStr s) = Inr (map (\<lambda>c. JStr [c]) s)"
| "py_iter (JObj kvs) = Inr (map JStr (remdups (map fst kvs)))"
| "py_iter _ = Inl TypeError"

text \<open>
  What a set or a dictionary compares: hashable values up to Python's equality, under
  which \<^verbatim>\<open>True == 1\<close> and \<^verbatim>\<open>False == 0\<close>. Lists and dictionaries are unhashable.
\<close>

datatype pykey = KNone | KNum int | KStr string

fun py_hash :: "json \<Rightarrow> error + pykey" where
  "py_hash JNull = Inr KNone"
| "py_hash (JBool b) = Inr (KNum (if b then 1 else 0))"
| "py_hash (JInt i) = Inr (KNum i)"
| "py_hash (JStr s) = Inr (KStr s)"
| "py_hash (JArr xs) = Inl TypeError"
| "py_hash (JObj kvs) = Inl TypeError"

text \<open>\<^verbatim>\<open>sep.join(xs)\<close>: every item must be a string.\<close>

fun py_join :: "string \<Rightarrow> json list \<Rightarrow> error + string" where
  "py_join sep [] = Inr []"
| "py_join sep [JStr s] = Inr s"
| "py_join sep (JStr s # x # xs) = and_then (py_join sep (x # xs)) (\<lambda>rest. Inr (s @ sep @ rest))"
| "py_join sep (_ # xs) = Inl TypeError"

section \<open>Record Normalizer\<close>

text \<open>
  \<^verbatim>\<open>extract_artists\<close>, lines 41 and 42: the truthy names of the attractions that are
  dictionaries.
\<close>

definition attraction_names :: "json \<Rightarrow> error + json list" where
  "attraction_names e =
     and_then (py_get e ''_embedded'') (\<lambda>emb.
     and_then (py_get (py_or emb (JObj [])) ''attractions'') (\<lambda>atts0.
     and_then (py_iter (py_or atts0 (JArr []))) (\<lambda>atts.
     Inr (map (\<lambda>a. case py_get a ''name'' of Inr n \<Rightarrow> n | Inl err \<Rightarrow> JNull)
            (filter (\<lambda>a. is_dict a \<and> (case py_get a ''name'' of Inr n \<Rightarrow> truthy n | Inl err \<Rightarrow> False))
               atts)))))"

text \<open>Lines 43 to 48: the loop over \<^verbatim>\<open>names\<close> with the set \<^verbatim>\<open>seen\<close> and the list \<^verbatim>\<open>out\<close>.\<close>

fun seen_loop :: "json list \<Rightarrow> pykey set \<Rightarrow> json list \<Rightarrow> error + json list" where
  "seen_loop [] seen out = Inr out"
| "seen_loop (n # ns) seen out =
     and_then (py_hash n) (\<lambda>k.
       if k \<notin> seen then seen_loop ns (insert k seen) (out @ [n])
       else seen_loop ns seen out)"

definition extract_artists :: "json \<Rightarrow> error + json list" where
  "extract_artists e = and_then (attraction_names e) (\<lambda>names. seen_loop names {} [])"

text \<open>
  \<^verbatim>\<open>normalize_row\<close>. The steps are in the order in which Python evaluates them; the
  dictionary display at the end evaluates its values top to bottom.
\<close>

definition normalize_row :: "json \<Rightarrow> error + row" where
  "normalize_row e =
     and_then (py_get e ''_embedded'') (\<lambda>emb0. let emb = py_or emb0 (JObj []) in
     and_then (py_get emb ''venues'') (\<lambda>venues0. let venues = py_or venues0 (JArr [JObj []]) in
     and_then (if truthy venues then py_first venues else Inr (JObj [])) (\<lambda>v.
     and_then (py_get e ''classifications'') (\<lambda>cls0. let cls_list = py_or cls0 (JArr [JObj []]) in
     and_then (if truthy cls_list then py_first cls_list else Inr (JObj [])) (\<lambda>cls.
     and_then (py_get cls ''genre'') (\<lambda>genre.
     and_then (py_get (py_or genre (JObj [])) ''name'') (\<lambda>genre_name.
     and_then (py_get cls ''subGenre'') (\<lambda>subgenre.
     and_then (py_get (py_or subgenre (JObj [])) ''name'') (\<lambda>subgenre_name.
     and_then (py_get e ''dates'') (\<lambda>dates.
     and_then (py_get (py_or dates (JObj [])) ''start'') (\<lambda>start0. let start = py_or start0 (JObj []) in
     and_then (py_get start ''localDate'') (\<lambda>local_date.
     and_then (py_get start ''localTime'') (\<lambda>local_time.
     and_then (extract_artists e) (\<lambda>artists.
     and_then (if artists \<noteq> [] then py_first (JArr artists) else Inr JNull) (\<lambda>artist_primary.
     and_then (if artists \<noteq> [] then and_then (py_join ''; '' artists) (\<lambda>s. Inr (JStr s)) else Inr JNull)
       (\<lambda>artists_joined.
     and_then (py_get e ''id'') (\<lambda>event_id.
     and_then (py_get e ''name'') (\<lambda>event_name.
     and_then (py_get v ''city'') (\<lambda>city.
     and_then (py_get (py_or city (JObj [])) ''name'') (\<lambda>city_name.
     and_then (py_get v ''country'') (\<lambda>country.
     and_then (py_get (py_or country (JObj [])) ''name'') (\<lambda>country_name.
     and_then (py_get v ''name'') (\<lambda>venue_name.
     and_then (py_get e ''url'') (\<lambda>url.
     Inr [(''event_id'', event_id),
          (''event_name'', event_name),
          (''local_date'', local_date),
          (''local_time'', local_time),
          (''city'', city_name),
          (''country'', country_name),
          (''venue_name'', venue_name),
          (''genre_name'', genre_name),
          (''subgenre_name'', subgenre_name),
          (''artist_primary'', artist_primary),
          (''artists'', artists_joined),
          (''url'', url)]))))))))))))))))))))))))"

text \<open>The list comprehension \<^verbatim>\<open>[f(x) for x in xs]\<close>: the first call that raises ends it.\<close>

fun map_raise :: "('a \<Rightarrow> error + 'b) \<Rightarrow> 'a list \<Rightarrow> error + 'b list" where
  "map_raise f [] = Inr []"
| "map_raise f (x # xs) = and_then (f x) (\<lambda>y. and_then (map_raise f xs) (\<lambda>ys. Inr (y # ys)))"

section \<open>What the script takes from outside\<close>

text \<open>
  The query parameters of one request (lines 93 to 102), the calendar date of
  \<^verbatim>\<open>datetime.date\<close> with its order, and the library and the remote service the script
  calls: the credential in the process environment, \<^verbatim>\<open>strptime\<close> and \<^verbatim>\<open>strftime\<close> with
  the format \<^verbatim>\<open>%Y-%m-%d\<close>, the response of \<^verbatim>\<open>urlopen\<close> decoded by \<^verbatim>\<open>json.loads\<close>, and
  \<^verbatim>\<open>str()\<close> of a value that is neither \<^verbatim>\<open>None\<close> nor a string (the csv module calls it on
  such a cell).
\<close>

record request =
  apikey :: "string option"
  segmentName :: string
  startDateTime :: string
  endDateTime :: string
  size_param :: nat
  page_param :: nat
  countryCode :: "string option"

datatype date = Date nat nat nat

fun date_less :: "date \<Rightarrow> date \<Rightarrow> bool" where
  "date_less (Date y1 m1 d1) (Date y2 m2 d2) =
     (y1 < y2 \<or> (y1 = y2 \<and> (m1 < m2 \<or> (m1 = m2 \<and> d1 < d2))))"

record env =
  getenv_api_key :: "string option"
  strptime :: "string \<Rightarrow> error + date"
  strftime :: "date \<Rightarrow> string"
  urlopen_json :: "request \<Rightarrow> error + json"
  str_of :: "json \<Rightarrow> string"

text \<open>
  What a run leaves behind: the requests sent, in order, and the files written, each
  as its list of lines (a line ends with CR LF in the file, which starts with the
  byte-order mark of \<^verbatim>\<open>utf-8-sig\<close>).
\<close>

record world =
  net_log :: "request list"
  files :: "string \<rightharpoonup> string list"

definition DEEP_PAGING_LIMIT :: nat where
  "DEEP_PAGING_LIMIT = 1000"

definition DEFAULT_ALLOWED :: "string list" where
  "DEFAULT_ALLOWED = [''Israel'', ''United States Of America'', ''Great Britain'', ''Canada'']"

definition COUNTRY_NORMALIZE :: "(string \<times> string) list" where
  "COUNTRY_NORMALIZE =
     [(''uk'', ''Great Britain''),
      (''united kingdom'', ''Great Britain''),
      (''great britain'', ''Great Britain''),
      (''usa'', ''United States Of America''),
      (''united states'', ''United States Of America''),
      (''united states of america'', ''United States Of America''),
      (''israel'', ''Israel''),
      (''ca'', ''Canada''),
      (''canada'', ''Canada'')]"

definition to_iso_range :: "env \<Rightarrow> date \<Rightarrow> date \<Rightarrow> string \<times> string" where
  "to_iso_range en start_date end_date =
     (strftime en start_date @ ''T00:00:00Z'', strftime en end_date @ ''T23:59:59Z'')"

section \<open>Page Fetcher\<close>

definition page_request ::
  "string option \<Rightarrow> string \<Rightarrow> string \<Rightarrow> string \<Rightarrow> nat \<Rightarrow> nat \<Rightarrow> string option \<Rightarrow> request" where
  "page_request api_key segment start_iso end_iso page sz country_code =
     \<lparr> apikey = api_key, segmentName = segment, startDateTime = start_iso, endDateTime = end_iso,
       size_param = sz, page_param = page,
       countryCode = (case country_code of None \<Rightarrow> None
                      | Some c \<Rightarrow> if c \<noteq> [] then Some c else None) \<rparr>"

text \<open>
  \<^verbatim>\<open>fetch_events_page\<close>: one request, recorded in the log whatever comes back, then the
  normalization of every event of the response.
\<close>

definition fetch_events_page ::
  "env \<Rightarrow> string \<Rightarrow> string \<Rightarrow> string \<Rightarrow> nat \<Rightarrow> nat \<Rightarrow> string option \<Rightarrow> request list
     \<Rightarrow> (error + row list \<times> bool) \<times> request list" where
  "fetch_events_page en segment start_iso end_iso page sz country_code log =
     (let req = page_request (getenv_api_key en) segment start_iso end_iso page sz country_code in
      (and_then (urlopen_json en req) (\<lambda>data.
       and_then (py_get data ''_embedded'') (\<lambda>emb.
       and_then (py_get (py_or emb (JObj [])) ''events'') (\<lambda>events0.
       and_then (py_iter (py_or events0 (JArr []))) (\<lambda>events.
       and_then (map_raise normalize_row events) (\<lambda>rows.
       and_then (py_get data ''_links'') (\<lambda>links.
       and_then (py_get (py_or links (JObj [])) ''next'') (\<lambda>nxt.
       Inr (rows, truthy nxt)))))))),
       log @ [req]))"

section \<open>Paginator\<close>

text \<open>
  The loop of \<^verbatim>\<open>paginate\<close>, with the page index, the accumulated rows and the request log
  as its state. It recurses only while \<open>(page + 1) * 200 < DEEP_PAGING_LIMIT\<close>.
\<close>

function paginate_loop ::
  "env \<Rightarrow> string \<Rightarrow> string \<Rightarrow> string \<Rightarrow> string option \<Rightarrow> nat \<Rightarrow> row list \<Rightarrow> request list
     \<Rightarrow> (error + row list) \<times> request list" where
  "paginate_loop en segment start_iso end_iso country_code page rows_all log =
     (case fetch_events_page en segment start_iso end_iso page 200 country_code log of
        (Inl err, log') \<Rightarrow> (Inl err, log')
      | (Inr (page_rows, has_next), log') \<Rightarrow>
          if page_rows = [] then (Inr rows_all, log')
          else if \<not> has_next \<or> (page + 1) * 200 \<ge> DEEP_PAGING_LIMIT
            then (Inr (rows_all @ page_rows), log')
            else paginate_loop en segment start_iso end_iso country_code (page + 1)
                   (rows_all @ page_rows) log')"
  by pat_completeness auto
termination
  by (relation "measure (\<lambda>(en, segment, start_iso, end_iso, country_code, page, rows_all, log). 5 - page)")
     (auto simp: DEEP_PAGING_LIMIT_def)

declare paginate_loop.simps [simp del]

definition paginate ::
  "env \<Rightarrow> string \<Rightarrow> string \<Rightarrow> string \<Rightarrow> string option \<Rightarrow> request list
     \<Rightarrow> (error + row list) \<times> request list" where
  "paginate en segment start_iso end_iso country_code log =
     paginate_loop en segment start_iso end_iso country_code 0 [] log"

section \<open>Country labels\<close>

text \<open>
  \<^verbatim>\<open>str.strip()\<close> and \<^verbatim>\<open>str.lower()\<close> on the code points 0 to 255: the white space
  characters of \<^verbatim>\<open>str.isspace\<close> there, and the upper-case letters with their lower-case
  partners.
\<close>

definition py_isspace :: "char \<Rightarrow> bool" where
  "py_isspace c = (c \<in> set [CHR 0x09, CHR 0x0A, CHR 0x0B, CHR 0x0C, CHR 0x0D, CHR 0x1C, CHR 0x1D,
      CHR 0x1E, CHR 0x1F, CHR 0x20, CHR 0x85, CHR 0xA0])"

definition py_strip :: "string \<Rightarrow> string" where
  "py_strip s = rev (dropWhile py_isspace (rev (dropWhile py_isspace s)))"

definition upper_chars :: string where
  "upper_chars = ''ABCDEFGHIJKLMNOPQRSTUVWXYZ'' @
     [CHR 0xC0, CHR 0xC1, CHR 0xC2, CHR 0xC3, CHR 0xC4, CHR 0xC5, CHR 0xC6, CHR 0xC7,
      CHR 0xC8, CHR 0xC9, CHR 0xCA, CHR 0xCB, CHR 0xCC, CHR 0xCD, CHR 0xCE, CHR 0xCF,
      CHR 0xD0, CHR 0xD1, CHR 0xD2, CHR 0xD3, CHR 0xD4, CHR 0xD5, CHR 0xD6,
      CHR 0xD8, CHR 0xD9, CHR 0xDA, CHR 0xDB, CHR 0xDC, CHR 0xDD, CHR 0xDE]"

definition lower_chars :: string where
  "lower_chars = ''abcdefghijklmnopqrstuvwxyz'' @
     [CHR 0xE0, CHR 0xE1, CHR 0xE2, CHR 0xE3, CHR 0xE4, CHR 0xE5, CHR 0xE6, CHR 0xE7,
      CHR 0xE8, CHR 0xE9, CHR 0xEA, CHR 0xEB, CHR 0xEC, CHR 0xED, CHR 0xEE, CHR 0xEF,
      CHR 0xF0, CHR 0xF1, CHR 0xF2, CHR 0xF3, CHR 0xF4, CHR 0xF5, CHR 0xF6,
      CHR 0xF8, CHR 0xF9, CHR 0xFA, CHR 0xFB, CHR 0xFC, CHR 0xFD, CHR 0xFE]"

definition lower_char :: "char \<Rightarrow> char" where
  "lower_char c = (case map_of (zip upper_chars lower_chars) c of Some d \<Rightarrow> d | None \<Rightarrow> c)"

definition py_lower :: "string \<Rightarrow> string" where
  "py_lower s = map lower_char s"

text \<open>\<^verbatim>\<open>s.split(",")\<close>: the pieces between the commas, empty pieces included.\<close>

fun py_split :: "char \<Rightarrow> string \<Rightarrow> string list" where
  "py_split d [] = [[]]"
| "py_split d (c # cs) =
     (if c = d then [] # py_split d cs
      else (case py_split d cs of [] \<Rightarrow> [[c]] | w # ws \<Rightarrow> (c # w) # ws))"

definition normalize_country_label :: "string \<Rightarrow> string" where
  "normalize_country_label name =
     (let key = py_lower (py_strip name)
      in case map_of COUNTRY_NORMALIZE key of Some label \<Rightarrow> label | None \<Rightarrow> name)"

definition parse_list :: "string option \<Rightarrow> string list \<Rightarrow> string list" where
  "parse_list arg_val default_list =
     (case arg_val of
        None \<Rightarrow> default_list
      | Some val \<Rightarrow>
          map normalize_country_label
            (map py_strip (filter (\<lambda>x. py_strip x \<noteq> []) (py_split CHR '','' val))))"

section \<open>Country Filter\<close>

text \<open>\<^verbatim>\<open>(a or "").lower()\<close> for an entry of a list of labels, which may be \<^verbatim>\<open>None\<close>.\<close>

definition label_lower :: "string option \<Rightarrow> string" where
  "label_lower a = py_lower (case a of None \<Rightarrow> [] | Some l \<Rightarrow> l)"

definition label_set :: "string option list option \<Rightarrow> string set" where
  "label_set labels = set (map label_lower (case labels of None \<Rightarrow> [] | Some ls \<Rightarrow> ls))"

text \<open>
  \<^verbatim>\<open>(r.get("country") or "").strip()\<close>: a truthy country that is not a string has no
  method \<^verbatim>\<open>strip\<close>.
\<close>

definition row_country :: "row \<Rightarrow> error + string" where
  "row_country r =
     (case py_or (case map_of r ''country'' of None \<Rightarrow> JNull | Some v \<Rightarrow> v) (JStr []) of
        JStr s \<Rightarrow> Inr (py_strip s)
      | _ \<Rightarrow> Inl AttributeError)"

fun filter_loop :: "row list \<Rightarrow> string set \<Rightarrow> string set \<Rightarrow> row list \<Rightarrow> error + row list" where
  "filter_loop [] allowed_set blocked_set out = Inr out"
| "filter_loop (r # rs) allowed_set blocked_set out =
     and_then (row_country r) (\<lambda>c. let cl = py_lower c in
       if allowed_set \<noteq> {} \<and> cl \<notin> allowed_set then filter_loop rs allowed_set blocked_set out
       else if blocked_set \<noteq> {} \<and> cl \<in> blocked_set then filter_loop rs allowed_set blocked_set out
       else filter_loop rs allowed_set blocked_set (out @ [r]))"

definition filter_by_countries ::
  "row list \<Rightarrow> string option list option \<Rightarrow> string option list option \<Rightarrow> error + row list" where
  "filter_by_countries rows allowed blocked =
     filter_loop rows (label_set allowed) (label_set blocked) []"

section \<open>Aggregator and Deduplicator\<close>

text \<open>
  Lines 197 to 200 of \<^verbatim>\<open>main\<close>. The dictionary \<^verbatim>\<open>combined\<close> keeps its keys in the order
  of their first insertion; an assignment to a key that is there replaces the value in
  place. \<^verbatim>\<open>r["event_id"]\<close> raises KeyError on a row without that key, and the assignment
  raises TypeError on an unhashable identifier.
\<close>

fun dict_set :: "(pykey \<times> 'v) list \<Rightarrow> pykey \<Rightarrow> 'v \<Rightarrow> (pykey \<times> 'v) list" where
  "dict_set [] k v = [(k, v)]"
| "dict_set ((k', v') # d) k v = (if k' = k then (k', v) # d else (k', v') # dict_set d k v)"

definition py_item :: "row \<Rightarrow> string \<Rightarrow> error + json" where
  "py_item r k = (case map_of r k of None \<Rightarrow> Inl KeyError | Some v \<Rightarrow> Inr v)"

definition row_key :: "row \<Rightarrow> error + pykey" where
  "row_key r = and_then (py_item r ''event_id'') py_hash"

fun combine_loop :: "row list \<Rightarrow> (pykey \<times> row) list \<Rightarrow> error + (pykey \<times> row) list" where
  "combine_loop [] combined = Inr combined"
| "combine_loop (r # rs) combined =
     and_then (row_key r) (\<lambda>k. combine_loop rs (dict_set combined k r))"

definition deduplicate :: "row list \<Rightarrow> row list \<Rightarrow> error + row list" where
  "deduplicate world_rows il_rows =
     and_then (combine_loop (world_rows @ il_rows) []) (\<lambda>combined. Inr (map snd combined))"

section \<open>CSV Writer\<close>

definition headers :: "string list" where
  "headers = [''event_id'', ''event_name'', ''local_date'', ''local_time'', ''city'', ''country'',
     ''venue_name'', ''genre_name'', ''subgenre_name'', ''artist_primary'', ''artists'', ''url'']"

text \<open>
  \<^verbatim>\<open>csv.DictWriter\<close> with its defaults: a row with a key outside the field names raises
  ValueError, a missing key gives the empty string; \<^verbatim>\<open>None\<close> is written as the empty
  field, a string as it is, any other value through \<^verbatim>\<open>str()\<close>. The dialect is
  \<^verbatim>\<open>excel\<close>: fields separated by commas, a field holding a comma, a double quote, CR or
  LF is put in double quotes with its double quotes doubled, and a row that is one empty
  field is written as two double quotes.
\<close>

definition dict_to_list :: "string list \<Rightarrow> row \<Rightarrow> error + json list" where
  "dict_to_list fieldnames rowdict =
     (if \<exists>k \<in> set (map fst rowdict). k \<notin> set fieldnames then Inl ValueError
      else Inr (map (\<lambda>key. case map_of rowdict key of None \<Rightarrow> JStr [] | Some v \<Rightarrow> v) fieldnames))"

definition cell_text :: "env \<Rightarrow> json \<Rightarrow> string" where
  "cell_text en v = (case v of JNull \<Rightarrow> [] | JStr s \<Rightarrow> s | _ \<Rightarrow> str_of en v)"

definition csv_field :: "string \<Rightarrow> string" where
  "csv_field s =
     (if \<exists>c \<in> set s. c \<in> set [CHR '','', CHR 0x22, CHR 0x0D, CHR 0x0A]
      then [CHR 0x22] @ concat (map (\<lambda>c. if c = CHR 0x22 then [c, c] else [c]) s) @ [CHR 0x22]
      else s)"

fun join_fields :: "string list \<Rightarrow> string" where
  "join_fields [] = []"
| "join_fields [f] = f"
| "join_fields (f # g # fs) = f @ CHR '','' # join_fields (g # fs)"

definition csv_line :: "env \<Rightarrow> json list \<Rightarrow> string" where
  "csv_line en cells =
     (let fields = map (cell_text en) cells
      in if fields = [[]] then [CHR 0x22, CHR 0x22] else join_fields (map csv_field fields))"

text \<open>The loop of lines 224 and 225 over the rows, with the lines written so far.\<close>

fun write_rows :: "env \<Rightarrow> row list \<Rightarrow> string list \<Rightarrow> (error + unit) \<times> string list" where
  "write_rows en [] written = (Inr (), written)"
| "write_rows en (r # rs) written =
     (case dict_to_list headers r of
        Inl err \<Rightarrow> (Inl err, written)
      | Inr cells \<Rightarrow> write_rows en rs (written @ [csv_line en cells]))"

text \<open>
  Lines 220 to 225: opening the file for writing empties it, then come the header line
  and the rows. The path is taken as resolved.
\<close>

definition write_csv :: "env \<Rightarrow> string \<Rightarrow> row list \<Rightarrow> world \<Rightarrow> (error + unit) \<times> world" where
  "write_csv en out_path filtered_rows w =
     (case write_rows en filtered_rows [csv_line en (map JStr headers)] of
        (res, written) \<Rightarrow> (res, w\<lparr>files := (files w)(out_path \<mapsto> written)\<rparr>))"

section \<open>The run\<close>

text \<open>The parsed command line, as \<^verbatim>\<open>parse_args\<close> returns it.\<close>

record args =
  start_date :: "string option"
  end_date :: "string option"
  out :: string
  segment :: string
  no_il :: bool
  allowed_countries :: "string option"
  blocked_countries :: "string option"

definition ensure_dates :: "env \<Rightarrow> args \<Rightarrow> error + date \<times> date" where
  "ensure_dates en a =
     (let default_start = Date 2025 10 1; default_end = Date 2026 7 1 in
      and_then (case start_date a of
                  Some s \<Rightarrow> if s \<noteq> [] then strptime en s else Inr default_start
                | None \<Rightarrow> Inr default_start) (\<lambda>start.
      and_then (case end_date a of
                  Some s \<Rightarrow> if s \<noteq> [] then strptime en s else Inr default_end
                | None \<Rightarrow> Inr default_end) (\<lambda>end.
      if date_less end start then Inl ValueError else Inr (start, end))))"

definition main :: "env \<Rightarrow> args \<Rightarrow> world \<Rightarrow> (error + unit) \<times> world" where
  "main en a w =
     (if (case getenv_api_key en of None \<Rightarrow> True | Some k \<Rightarrow> k = []) then (Inl ValueError, w)
      else case ensure_dates en a of
        Inl err \<Rightarrow> (Inl err, w)
      | Inr (start, end) \<Rightarrow>
         (case to_iso_range en start end of (start_iso, end_iso) \<Rightarrow>
          let allowed = parse_list (allowed_countries a) DEFAULT_ALLOWED;
              blocked = parse_list (blocked_countries a) []
          in (case paginate en (segment a) start_iso end_iso None (net_log w) of
               (Inl err, log1) \<Rightarrow> (Inl err, w\<lparr>net_log := log1\<rparr>)
             | (Inr world_rows, log1) \<Rightarrow>
                (case (if no_il a then (Inr [], log1)
                       else paginate en (segment a) start_iso end_iso (Some ''IL'') log1) of
                   (Inl err, log2) \<Rightarrow> (Inl err, w\<lparr>net_log := log2\<rparr>)
                 | (Inr il_rows, log2) \<Rightarrow>
                    (case deduplicate world_rows il_rows of
                       Inl err \<Rightarrow> (Inl err, w\<lparr>net_log := log2\<rparr>)
                     | Inr all_rows \<Rightarrow>
                        (case filter_by_countries all_rows (Some (map Some allowed))
                                (Some (map Some blocked)) of
                           Inl err \<Rightarrow> (Inl err, w\<lparr>net_log := log2\<rparr>)
                         | Inr filtered_rows \<Rightarrow>
                             write_csv en (out a) filtered_rows (w\<lparr>net_log := log2\<rparr>)))))))"

section \<open>Invariants of the loops\<close>

text \<open>
  The dictionary \<^verbatim>\<open>combined\<close> of the deduplication holds each key once, and holds a row
  under the key of its own identifier.
\<close>

definition keyed :: "(pykey \<times> row) list \<Rightarrow> bool" where
  "keyed d = (distinct (map fst d) \<and> (\<forall>(k, r) \<in> set d. row_key r = Inr k))"

section \<open>Properties of the deduplication\<close>

lemma map_of_dict_set: "map_of (dict_set d k v) = (map_of d)(k \<mapsto> v)"
  by (induction d) (auto simp: fun_eq_iff)

lemma find_app:
  "find P (xs @ ys) = (case find P xs of None \<Rightarrow> find P ys | Some x \<Rightarrow> Some x)"
  by (induction xs) auto

lemma keys_dict_set:
  "map fst (dict_set d k v) = (if k \<in> fst ` set d then map fst d else map fst d @ [k])"
  by (induction d) (auto split: if_splits)

lemma distinct_dict_set: "distinct (map fst d) \<Longrightarrow> distinct (map fst (dict_set d k v))"
  by (simp add: keys_dict_set)

lemma set_dict_set: "set (dict_set d k v) \<subseteq> insert (k, v) (set d)"
  by (induction d) (auto split: if_splits)

lemma keyed_dict_set: "keyed d \<Longrightarrow> row_key r = Inr k \<Longrightarrow> keyed (dict_set d k r)"
  unfolding keyed_def using set_dict_set[of d k r] by (auto simp: distinct_dict_set)

lemma combine_loop_total:
  "\<forall>r \<in> set rows. \<exists>k. row_key r = Inr k \<Longrightarrow> \<exists>d'. combine_loop rows d = Inr d'"
  by (induction rows arbitrary: d) (auto simp: and_then_def)

lemma combine_loop_keyed:
  "combine_loop rows d = Inr d' \<Longrightarrow> keyed d \<Longrightarrow> keyed d'"
  by (induction rows arbitrary: d) (auto simp: and_then_def keyed_dict_set split: sum.splits)

lemma combine_loop_lookup:
  "combine_loop rows d = Inr d' \<Longrightarrow>
   map_of d' k = (case find (\<lambda>r. row_key r = Inr k) (rev rows) of Some r \<Rightarrow> Some r | None \<Rightarrow> map_of d k)"
proof (induction rows arbitrary: d)
  case Nil
  then show ?case by simp
next
  case (Cons r rs)
  then obtain kr where kr: "row_key r = Inr kr" and rest: "combine_loop rs (dict_set d kr r) = Inr d'"
    by (auto simp: and_then_def split: sum.splits)
  show ?case
    using Cons.IH[OF rest] kr
    by (auto simp: find_app map_of_dict_set split: option.splits)
qed

lemma combine_loop_subset:
  "combine_loop rows d = Inr d' \<Longrightarrow> snd ` set d' \<subseteq> snd ` set d \<union> set rows"
proof (induction rows arbitrary: d)
  case Nil
  then show ?case by simp
next
  case (Cons r rs)
  then obtain kr where kr: "row_key r = Inr kr" and rest: "combine_loop rs (dict_set d kr r) = Inr d'"
    by (auto simp: and_then_def split: sum.splits)
  show ?case
  proof -
    have "snd ` set (dict_set d kr r) \<subseteq> insert r (snd ` set d)"
      using set_dict_set[of d kr r] by auto
    with Cons.IH[OF rest] show ?thesis by auto
  qed
qed

lemma keyed_filter:
  "keyed d \<Longrightarrow> filter (\<lambda>x. row_key x = Inr k) (map snd d) = (case map_of d k of None \<Rightarrow> [] | Some r \<Rightarrow> [r])"
proof (induction d)
  case Nil
  then show ?case by simp
next
  case (Cons p d)
  obtain k' r' where p: "p = (k', r')" by (cases p)
  from Cons.prems have kd: "keyed d" and kr: "row_key r' = Inr k'" and nin: "k' \<notin> fst ` set d"
    by (auto simp: keyed_def p)
  show ?case
  proof (cases "k' = k")
    case True
    with nin have "map_of d k = None" by (simp add: map_of_eq_None_iff)
    with Cons.IH[OF kd] True kr p show ?thesis by simp
  next
    case False
    with Cons.IH[OF kd] kr p show ?thesis by auto
  qed
qed

lemma keyed_distinct_keys: "keyed d \<Longrightarrow> distinct (map row_key (map snd d))"
proof -
  assume k: "keyed d"
  then have "map row_key (map snd d) = map Inr (map fst d)"
    by (auto simp: keyed_def)
  with k show ?thesis by (simp add: keyed_def distinct_map inj_on_def)
qed

lemma find_rev_last:
  "find P (rev xs) = (if filter P xs = [] then None else Some (last (filter P xs)))"
  by (induction xs) (auto simp: find_app split: option.splits)

lemma deduplicate_result:
  assumes "\<forall>r \<in> set (world_rows @ il_rows). \<exists>k. row_key r = Inr k"
  obtains d where "combine_loop (world_rows @ il_rows) [] = Inr d"
    and "deduplicate world_rows il_rows = Inr (map snd d)"
    and "keyed d"
proof -
  from combine_loop_total[OF assms] obtain d where d: "combine_loop (world_rows @ il_rows) [] = Inr d"
    by blast
  have "keyed []" by (simp add: keyed_def)
  with d have "keyed d" by (rule combine_loop_keyed)
  with d that show ?thesis by (simp add: deduplicate_def and_then_def)
qed

lemma merged_by_key:
  assumes d: "combine_loop rows [] = Inr d" and k: "keyed d"
  shows "filter (\<lambda>r. row_key r = Inr k) (map snd d) =
     (if filter (\<lambda>r. row_key r = Inr k) rows = [] then []
      else [last (filter (\<lambda>r. row_key r = Inr k) rows)])"
  using keyed_filter[OF k, of k] combine_loop_lookup[OF d, of k]
  by (simp add: find_rev_last)

text \<open>
  C3. Deduplication by identifier is last-write-wins with the region scope second. When
  every row has a hashable identifier the merge returns; every identifier occurs once in
  the merged collection; the merged rows are rows of the two lists; for a row of the
  region list, the one merged row with its identifier is the last row of the region list
  with that identifier (the row itself when the region list holds it once), whatever the
  global list holds; an identifier that only the global list holds keeps the last row of
  the global list.
\<close>

theorem dedup_last_write_wins:
  assumes "\<forall>r \<in> set (world_rows @ il_rows). \<exists>k. row_key r = Inr k"
  shows "\<exists>merged. deduplicate world_rows il_rows = Inr merged
      \<and> distinct (map row_key merged)
      \<and> set merged \<subseteq> set (world_rows @ il_rows)
      \<and> (\<forall>x \<in> set il_rows. filter (\<lambda>r. row_key r = row_key x) merged =
            [last (filter (\<lambda>r. row_key r = row_key x) il_rows)])
      \<and> (\<forall>x \<in> set world_rows. row_key x \<notin> row_key ` set il_rows \<longrightarrow>
            filter (\<lambda>r. row_key r = row_key x) merged =
            [last (filter (\<lambda>r. row_key r = row_key x) world_rows)])"
proof -
  from assms obtain d where d: "combine_loop (world_rows @ il_rows) [] = Inr d"
    and m: "deduplicate world_rows il_rows = Inr (map snd d)" and k: "keyed d"
    by (rule deduplicate_result)
  have sub: "set (map snd d) \<subseteq> set (world_rows @ il_rows)"
    using combine_loop_subset[OF d] by simp
  have il: "filter (\<lambda>r. row_key r = row_key x) (map snd d) =
            [last (filter (\<lambda>r. row_key r = row_key x) il_rows)]" if x: "x \<in> set il_rows" for x
  proof -
    from assms x obtain kx where kx: "row_key x = Inr kx" by auto
    from x kx have ne: "filter (\<lambda>r. row_key r = Inr kx) il_rows \<noteq> []"
      by (auto simp: filter_empty_conv)
    show ?thesis
      using merged_by_key[OF d k, of kx] ne by (simp add: kx)
  qed
  have wo: "filter (\<lambda>r. row_key r = row_key x) (map snd d) =
            [last (filter (\<lambda>r. row_key r = row_key x) world_rows)]"
    if x: "x \<in> set world_rows" and nin: "row_key x \<notin> row_key ` set il_rows" for x
  proof -
    from assms x obtain kx where kx: "row_key x = Inr kx" by auto
    from x kx have ne: "filter (\<lambda>r. row_key r = Inr kx) world_rows \<noteq> []"
      by (auto simp: filter_empty_conv)
    from nin kx have e: "filter (\<lambda>r. row_key r = Inr kx) il_rows = []"
      by (auto simp: filter_empty_conv image_iff)
    show ?thesis
      using merged_by_key[OF d k, of kx] ne e by (simp add: kx)
  qed
  from m keyed_distinct_keys[OF k] sub il wo show ?thesis by blast
qed

lemma row_key_none: "row_key r = Inr KNone \<longleftrightarrow> map_of r ''event_id'' = Some JNull"
proof (cases "map_of r ''event_id''")
  case None
  then show ?thesis by (simp add: row_key_def py_item_def and_then_def)
next
  case (Some v)
  then show ?thesis by (cases v) (simp_all add: row_key_def py_item_def and_then_def)
qed

text \<open>
  C10. Rows without an identifier are not all kept. Every row whose \<^verbatim>\<open>event_id\<close> is
  \<^verbatim>\<open>None\<close> is stored under the one key \<^verbatim>\<open>None\<close>: the merged collection holds at most one
  such row, the last one of the global list followed by the region list, and the earlier
  ones are gone.
\<close>

theorem dedup_absent_identifier:
  assumes "\<forall>r \<in> set (world_rows @ il_rows). \<exists>k. row_key r = Inr k"
  shows "\<exists>merged. deduplicate world_rows il_rows = Inr merged
      \<and> filter (\<lambda>r. map_of r ''event_id'' = Some JNull) merged =
          (if filter (\<lambda>r. map_of r ''event_id'' = Some JNull) (world_rows @ il_rows) = [] then []
           else [last (filter (\<lambda>r. map_of r ''event_id'' = Some JNull) (world_rows @ il_rows))])"
proof -
  from assms obtain d where d: "combine_loop (world_rows @ il_rows) [] = Inr d"
    and m: "deduplicate world_rows il_rows = Inr (map snd d)" and k: "keyed d"
    by (rule deduplicate_result)
  show ?thesis
    using m merged_by_key[OF d k, of KNone] by (simp add: row_key_none)
qed

theorem dedup_last_write_wins_witness:
  "deduplicate [[(''event_id'', JStr ''E1''), (''city'', JStr ''Haifa'')],
                [(''event_id'', JStr ''E2''), (''city'', JStr ''London'')]]
               [[(''event_id'', JStr ''E1''), (''city'', JStr ''Tel Aviv'')]] =
   Inr [[(''event_id'', JStr ''E1''), (''city'', JStr ''Tel Aviv'')],
        [(''event_id'', JStr ''E2''), (''city'', JStr ''London'')]]"
  using dedup_last_write_wins [of
      "[[(''event_id'', JStr ''E1''), (''city'', JStr ''Haifa'')],
        [(''event_id'', JStr ''E2''), (''city'', JStr ''London'')]]"
      "[[(''event_id'', JStr ''E1''), (''city'', JStr ''Tel Aviv'')]]"]
  by (simp add: deduplicate_def row_key_def py_item_def and_then_def)

theorem dedup_absent_identifier_witness:
  "deduplicate [[(''event_id'', JNull), (''city'', JStr ''Haifa'')],
                [(''event_id'', JStr ''E2''), (''city'', JStr ''London'')]]
               [[(''event_id'', JNull), (''city'', JStr ''Tel Aviv'')]] =
   Inr [[(''event_id'', JNull), (''city'', JStr ''Tel Aviv'')],
        [(''event_id'', JStr ''E2''), (''city'', JStr ''London'')]]"
  using dedup_absent_identifier [of
      "[[(''event_id'', JNull), (''city'', JStr ''Haifa'')],
        [(''event_id'', JStr ''E2''), (''city'', JStr ''London'')]]"
      "[[(''event_id'', JNull), (''city'', JStr ''Tel Aviv'')]]"]
  by (simp add: deduplicate_def row_key_def py_item_def and_then_def)

section \<open>Properties of the normalizer\<close>

lemma and_then_Inr_iff: "and_then m f = Inr y \<longleftrightarrow> (\<exists>x. m = Inr x \<and> f x = Inr y)"
  by (cases m) (simp_all add: and_then_def)

text \<open>
  C2. An event object that has an identifier and lacks \<^verbatim>\<open>_embedded\<close>, \<^verbatim>\<open>classifications\<close>,
  \<^verbatim>\<open>dates\<close>, \<^verbatim>\<open>name\<close> and \<^verbatim>\<open>url\<close> is normalized without an exception, to the record
  whose \<^verbatim>\<open>event_id\<close> is the identifier and whose other eleven fields are \<^verbatim>\<open>None\<close>.
\<close>

theorem normalize_row_minimal_event:
  assumes "map_of kvs ''id'' = Some i"
    and "map_of kvs ''_embedded'' = None" "map_of kvs ''classifications'' = None"
    and "map_of kvs ''dates'' = None" "map_of kvs ''name'' = None" "map_of kvs ''url'' = None"
  shows "normalize_row (JObj kvs) =
     Inr [(''event_id'', i), (''event_name'', JNull), (''local_date'', JNull),
          (''local_time'', JNull), (''city'', JNull), (''country'', JNull),
          (''venue_name'', JNull), (''genre_name'', JNull), (''subgenre_name'', JNull),
          (''artist_primary'', JNull), (''artists'', JNull), (''url'', JNull)]"
  using assms
  by (simp add: normalize_row_def and_then_def py_or_def extract_artists_def attraction_names_def)

text \<open>
  The event \<^verbatim>\<open>{"id": "E7"}\<close>.
\<close>

theorem normalize_row_minimal_event_witness:
  "normalize_row (JObj [(''id'', JStr ''E7'')]) =
     Inr [(''event_id'', JStr ''E7''), (''event_name'', JNull), (''local_date'', JNull),
          (''local_time'', JNull), (''city'', JNull), (''country'', JNull),
          (''venue_name'', JNull), (''genre_name'', JNull), (''subgenre_name'', JNull),
          (''artist_primary'', JNull), (''artists'', JNull), (''url'', JNull)]"
  using normalize_row_minimal_event [of "[(''id'', JStr ''E7'')]" "JStr ''E7''"]
  by simp

text \<open>
  C9, as stated, asks for a record from every event object. An event whose \<^verbatim>\<open>_embedded\<close> is
  the number 1 gets none: \<^verbatim>\<open>emb.get("venues")\<close> is called on an integer.
\<close>

theorem normalize_row_raises: "normalize_row (JObj [(''_embedded'', JInt 1)]) = Inl AttributeError"
  by (simp add: normalize_row_def and_then_def py_or_def)

text \<open>
  C9, amended. Whenever \<^verbatim>\<open>normalize_row\<close> returns, the record has exactly the twelve keys of
  the CSV header, in the header's order, and the CSV writer accepts it as a full row: no
  key is outside the field names and every field name has its cell.
\<close>

theorem normalize_row_keys:
  assumes "normalize_row e = Inr r"
  shows "map fst r = headers \<and> dict_to_list headers r = Inr (map snd r)"
proof -
  from assms obtain v0 v1 v2 v3 v4 v5 v6 v7 v8 v9 v10 v11 where
    "r = [(''event_id'', v0), (''event_name'', v1), (''local_date'', v2), (''local_time'', v3),
          (''city'', v4), (''country'', v5), (''venue_name'', v6), (''genre_name'', v7),
          (''subgenre_name'', v8), (''artist_primary'', v9), (''artists'', v10), (''url'', v11)]"
    unfolding normalize_row_def and_then_Inr_iff Let_def by blast
  then show ?thesis
    by (simp add: headers_def dict_to_list_def)
qed

text \<open>
  The empty event object.
\<close>

theorem normalize_row_keys_witness:
  "normalize_row (JObj []) =
     Inr [(''event_id'', JNull), (''event_name'', JNull), (''local_date'', JNull),
          (''local_time'', JNull), (''city'', JNull), (''country'', JNull),
          (''venue_name'', JNull), (''genre_name'', JNull), (''subgenre_name'', JNull),
          (''artist_primary'', JNull), (''artists'', JNull), (''url'', JNull)] \<and>
   map fst [(''event_id'', JNull), (''event_name'', JNull), (''local_date'', JNull),
          (''local_time'', JNull), (''city'', JNull), (''country'', JNull),
          (''venue_name'', JNull), (''genre_name'', JNull), (''subgenre_name'', JNull),
          (''artist_primary'', JNull), (''artists'', JNull), (''url'', JNull)] = headers"
proof -
  have r: "normalize_row (JObj []) =
     Inr [(''event_id'', JNull), (''event_name'', JNull), (''local_date'', JNull),
          (''local_time'', JNull), (''city'', JNull), (''country'', JNull),
          (''venue_name'', JNull), (''genre_name'', JNull), (''subgenre_name'', JNull),
          (''artist_primary'', JNull), (''artists'', JNull), (''url'', JNull)]"
    by (simp add: normalize_row_def and_then_def py_or_def extract_artists_def attraction_names_def)
  from normalize_row_keys [OF r] r show ?thesis by simp
qed

subsection \<open>Artists\<close>

lemma remdups_snoc: "remdups (xs @ [x]) = filter (\<lambda>y. y \<noteq> x) (remdups xs) @ [x]"
  by (induction xs) auto

lemma first_seen_Cons:
  "rev (remdups (rev (x # xs))) = x # filter (\<lambda>y. y \<noteq> x) (rev (remdups (rev xs)))"
  by (simp add: remdups_snoc rev_filter)

lemma first_seen_distinct: "distinct xs \<Longrightarrow> rev (remdups (rev xs)) = xs"
  by (simp add: distinct_remdups_id)

lemma seen_loop_strings:
  assumes "\<forall>n \<in> set ns. \<exists>s. n = JStr s"
  shows "seen_loop ns (KStr ` S) acc =
     Inr (acc @ filter (\<lambda>n. n \<notin> JStr ` S) (rev (remdups (rev ns))))"
  using assms
proof (induction ns arbitrary: S acc)
  case Nil
  then show ?case by simp
next
  case (Cons n ns)
  then obtain s where n: "n = JStr s" by auto
  from Cons.prems have rest: "\<forall>n \<in> set ns. \<exists>s. n = JStr s" by simp
  let ?fs = "rev (remdups (rev ns))"
  have fsC: "rev (remdups (rev (n # ns))) = n # filter (\<lambda>y. y \<noteq> n) ?fs"
    by (rule first_seen_Cons)
  show ?case
  proof (cases "s \<in> S")
    case True
    have step: "seen_loop (n # ns) (KStr ` S) acc = seen_loop ns (KStr ` S) acc"
      using True by (simp add: n and_then_def)
    have "filter (\<lambda>m. m \<notin> JStr ` S) (n # filter (\<lambda>y. y \<noteq> n) ?fs) = filter (\<lambda>m. m \<notin> JStr ` S) ?fs"
      using True by (auto simp: n intro!: filter_cong)
    with step Cons.IH[OF rest, of S acc] show ?thesis
      by (simp only: fsC)
  next
    case False
    have step: "seen_loop (n # ns) (KStr ` S) acc = seen_loop ns (KStr ` insert s S) (acc @ [n])"
      using False by (simp add: n and_then_def image_iff)
    have "n # filter (\<lambda>m. m \<notin> JStr ` insert s S) ?fs =
          filter (\<lambda>m. m \<notin> JStr ` S) (n # filter (\<lambda>y. y \<noteq> n) ?fs)"
      using False by (auto simp: n intro!: filter_cong)
    with step Cons.IH[OF rest, of "insert s S" "acc @ [n]"] show ?thesis
      by (simp only: fsC append_assoc append_Cons append_Nil)
  qed
qed

lemma py_join_strings:
  "py_join sep (map JStr (s # ss)) = Inr (s @ concat (map (\<lambda>t. sep @ t) ss))"
  by (induction ss arbitrary: s) (simp_all add: and_then_def)

lemma normalize_row_artists:
  assumes "normalize_row e = Inr r"
  shows "\<exists>artists. extract_artists e = Inr artists
    \<and> map_of r ''artist_primary'' = Some (case artists of [] \<Rightarrow> JNull | n # ns \<Rightarrow> n)
    \<and> (artists = [] \<longrightarrow> map_of r ''artists'' = Some JNull)
    \<and> (artists \<noteq> [] \<longrightarrow>
          (\<exists>s. py_join ''; '' artists = Inr s \<and> map_of r ''artists'' = Some (JStr s)))"
proof -
  from assms obtain artists p j v0 v1 v2 v3 v4 v5 v6 v7 v8 v11 where
    a: "extract_artists e = Inr artists"
    and p: "(if artists \<noteq> [] then py_first (JArr artists) else Inr JNull) = Inr p"
    and j: "(if artists \<noteq> [] then and_then (py_join ''; '' artists) (\<lambda>s. Inr (JStr s)) else Inr JNull) = Inr j"
    and r: "r = [(''event_id'', v0), (''event_name'', v1), (''local_date'', v2), (''local_time'', v3),
          (''city'', v4), (''country'', v5), (''venue_name'', v6), (''genre_name'', v7),
          (''subgenre_name'', v8), (''artist_primary'', p), (''artists'', j), (''url'', v11)]"
    unfolding normalize_row_def and_then_Inr_iff Let_def by blast
  have 1: "map_of r ''artist_primary'' = Some (case artists of [] \<Rightarrow> JNull | n # ns \<Rightarrow> n)"
    using p r by (cases artists) auto
  have 2: "artists = [] \<longrightarrow> map_of r ''artists'' = Some JNull"
    using j r by auto
  have 3: "artists \<noteq> [] \<longrightarrow>
          (\<exists>s. py_join ''; '' artists = Inr s \<and> map_of r ''artists'' = Some (JStr s))"
    using j r by (auto simp: and_then_Inr_iff)
  from a 1 2 3 show ?thesis by blast
qed

lemma remdups_map_JStr: "remdups (map JStr xs) = map JStr (remdups xs)"
  by (induction xs) auto

lemma first_seen_map_JStr: "rev (remdups (rev (map JStr ss))) = map JStr (rev (remdups (rev ss)))"
  by (simp add: rev_map remdups_map_JStr)

lemma seen_loop_names:
  "seen_loop (map JStr ss) {} [] = Inr (map JStr (rev (remdups (rev ss))))"
  using seen_loop_strings [of "map JStr ss" "{}" "[]"]
  by (auto simp: first_seen_map_JStr)

text \<open>
  C7. When the truthy attraction names of an event are the strings \<open>ss\<close>, the extraction
  returns them without duplicates in the order of first occurrence; a list free of
  duplicates comes back unchanged, and extracting again from the result changes nothing;
  and whenever the event is normalized, the primary artist is the first extracted name and
  the joined field is the names separated by a semicolon and a space, both \<^verbatim>\<open>None\<close>
  when there is no name.
\<close>

theorem extract_artists_first_seen:
  assumes names: "attraction_names e = Inr (map JStr ss)"
  shows "extract_artists e = Inr (map JStr (rev (remdups (rev ss))))
     \<and> (distinct ss \<longrightarrow> extract_artists e = Inr (map JStr ss))
     \<and> seen_loop (map JStr (rev (remdups (rev ss)))) {} [] = Inr (map JStr (rev (remdups (rev ss))))
     \<and> (\<forall>r. normalize_row e = Inr r \<longrightarrow>
           map_of r ''artist_primary'' =
             Some (case rev (remdups (rev ss)) of [] \<Rightarrow> JNull | s # rest \<Rightarrow> JStr s) \<and>
           map_of r ''artists'' =
             Some (case rev (remdups (rev ss)) of [] \<Rightarrow> JNull
                   | s # rest \<Rightarrow> JStr (s @ concat (map (\<lambda>t. ''; '' @ t) rest))))"
proof -
  let ?fs = "rev (remdups (rev ss))"
  have ex: "extract_artists e = Inr (map JStr ?fs)"
    using names by (simp add: extract_artists_def and_then_def seen_loop_names)
  have dist: "distinct ss \<longrightarrow> extract_artists e = Inr (map JStr ss)"
    using ex by (simp add: first_seen_distinct)
  have "distinct ?fs" by simp
  then have "rev (remdups (rev ?fs)) = ?fs" by (rule first_seen_distinct)
  with seen_loop_names [of ?fs] have idem: "seen_loop (map JStr ?fs) {} [] = Inr (map JStr ?fs)"
    by (simp only:)
  have fields: "map_of r ''artist_primary'' =
             Some (case ?fs of [] \<Rightarrow> JNull | s # rest \<Rightarrow> JStr s) \<and>
           map_of r ''artists'' =
             Some (case ?fs of [] \<Rightarrow> JNull
                   | s # rest \<Rightarrow> JStr (s @ concat (map (\<lambda>t. ''; '' @ t) rest)))"
    if r: "normalize_row e = Inr r" for r
  proof -
    from r obtain artists where a: "extract_artists e = Inr artists"
      and p: "map_of r ''artist_primary'' = Some (case artists of [] \<Rightarrow> JNull | n # ns \<Rightarrow> n)"
      and j0: "artists = [] \<longrightarrow> map_of r ''artists'' = Some JNull"
      and j1: "artists \<noteq> [] \<longrightarrow>
          (\<exists>s. py_join ''; '' artists = Inr s \<and> map_of r ''artists'' = Some (JStr s))"
      using normalize_row_artists by blast
    from a ex have eq: "artists = map JStr ?fs" by simp
    show ?thesis
    proof (cases ?fs)
      case Nil
      with eq p j0 show ?thesis by simp
    next
      case (Cons s rest)
      with eq j1 have "map_of r ''artists'' = Some (JStr (s @ concat (map (\<lambda>t. ''; '' @ t) rest)))"
        using py_join_strings [of "''; ''" s rest] by auto
      moreover have "((@) ''; '') = (\<lambda>t. CHR '';'' # CHR '' '' # t)"
        by (rule ext) simp
      ultimately show ?thesis using Cons eq p by simp
    qed
  qed
  from ex dist idem fields show ?thesis by blast
qed

text \<open>
  Five attractions: a repeated name, an item that is not a dictionary and an empty name.
\<close>

theorem extract_artists_first_seen_witness:
  "extract_artists (JObj [(''_embedded'', JObj [(''attractions'',
       JArr [JObj [(''name'', JStr ''Band A'')], JObj [(''name'', JStr ''Band B'')],
             JObj [(''name'', JStr ''Band A'')], JStr ''x'', JObj [(''name'', JStr [])]])])]) =
     Inr [JStr ''Band A'', JStr ''Band B'']"
  using extract_artists_first_seen [of
     "JObj [(''_embedded'', JObj [(''attractions'',
       JArr [JObj [(''name'', JStr ''Band A'')], JObj [(''name'', JStr ''Band B'')],
             JObj [(''name'', JStr ''Band A'')], JStr ''x'', JObj [(''name'', JStr [])]])])]"
     "[''Band A'', ''Band B'', ''Band A'']"]
  by (simp add: attraction_names_def and_then_def py_or_def)

section \<open>Properties of the paginator\<close>

lemma fetch_log:
  "snd (fetch_events_page en seg si ei page sz cc lg) = lg @ [page_request (getenv_api_key en) seg si ei page sz cc]"
  by (simp add: fetch_events_page_def Let_def)

lemma fetch_result:
  "fst (fetch_events_page en seg si ei page sz cc lg) = fst (fetch_events_page en seg si ei page sz cc [])"
  by (simp add: fetch_events_page_def Let_def)

lemma fetch_split:
  "fetch_events_page en seg si ei page sz cc lg =
     (fst (fetch_events_page en seg si ei page sz cc []), lg @ [page_request (getenv_api_key en) seg si ei page sz cc])"
  using fetch_log [of en seg si ei page sz cc lg] fetch_result [of en seg si ei page sz cc lg]
  by (simp add: prod_eq_iff)

lemma paginate_loop_empty_page:
  assumes "fst (fetch_events_page en seg si ei page 200 cc []) = Inr ([], has_next)"
  shows "paginate_loop en seg si ei cc page rows_all lg =
     (Inr rows_all, lg @ [page_request (getenv_api_key en) seg si ei page 200 cc])"
  by (subst paginate_loop.simps, subst fetch_split) (simp add: assms)

lemma paginate_loop_pages:
  assumes "page \<le> k" and "fst (fetch_events_page en seg si ei k 200 cc []) = Inr ([], has_next)"
  shows "\<exists>reqs. snd (paginate_loop en seg si ei cc page rows_all lg) = lg @ reqs \<and>
           (\<forall>r \<in> set reqs. page_param r \<le> k)"
  using assms
proof (induction en seg si ei cc page rows_all lg rule: paginate_loop.induct)
  case (1 en seg si ei cc page rows_all lg)
  let ?req = "page_request (getenv_api_key en) seg si ei page 200 cc"
  have pp: "page_param ?req = page" by (simp add: page_request_def)
  show ?case
  proof (cases "page = k")
    case True
    with paginate_loop_empty_page [OF "1.prems"(2), of rows_all lg] pp show ?thesis
      by simp
  next
    case False
    with "1.prems" have lt: "page + 1 \<le> k" by simp
    show ?thesis
    proof (cases "fst (fetch_events_page en seg si ei page 200 cc [])")
      case (Inl err)
      then have "paginate_loop en seg si ei cc page rows_all lg = (Inl err, lg @ [?req])"
        by (subst paginate_loop.simps, subst fetch_split) simp
      with pp "1.prems" show ?thesis by simp
    next
      case (Inr res)
      obtain page_rows hn where res: "res = (page_rows, hn)" by (cases res)
      show ?thesis
      proof (cases "page_rows = [] \<or> \<not> hn \<or> (page + 1) * 200 \<ge> DEEP_PAGING_LIMIT")
        case True
        then have "snd (paginate_loop en seg si ei cc page rows_all lg) = lg @ [?req]"
          using Inr res by (subst paginate_loop.simps, subst fetch_split) auto
        with pp "1.prems" show ?thesis by simp
      next
        case stop: False
        have f: "fetch_events_page en seg si ei page 200 cc lg = (Inr (page_rows, hn), lg @ [?req])"
          using Inr res by (subst fetch_split) simp
        have step: "paginate_loop en seg si ei cc page rows_all lg =
           paginate_loop en seg si ei cc (page + 1) (rows_all @ page_rows) (lg @ [?req])"
          using stop f by (subst paginate_loop.simps) simp
        from stop have c1: "page_rows \<noteq> []" and c2: "\<not> (\<not> hn \<or> DEEP_PAGING_LIMIT \<le> (page + 1) * 200)"
          by auto
        from "1.IH" [OF f [symmetric] refl refl c1 c2 lt "1.prems"(2)]
        obtain reqs where "snd (paginate_loop en seg si ei cc (page + 1) (rows_all @ page_rows) (lg @ [?req]))
             = (lg @ [?req]) @ reqs" and "\<forall>r \<in> set reqs. page_param r \<le> k"
          by blast
        with step pp "1.prems" show ?thesis
          by (intro exI [of _ "?req # reqs"]) simp
      qed
    qed
  qed
qed


text \<open>
  C5. Pagination stops at a page without records, whatever that page says about further
  pages. When the loop is at page \<open>k\<close> and the response of page \<open>k\<close> has no record, the
  loop returns the rows accumulated so far, unchanged, and has sent the request for page
  \<open>k\<close> and no other; and a whole run of \<^verbatim>\<open>paginate\<close> sends no request for a page after
  \<open>k\<close>.
\<close>

theorem paginate_stops_at_empty_page:
  assumes "fst (fetch_events_page en seg si ei k 200 cc []) = Inr ([], has_next)"
  shows "paginate_loop en seg si ei cc k rows_all lg =
           (Inr rows_all, lg @ [page_request (getenv_api_key en) seg si ei k 200 cc])
     \<and> (\<exists>reqs. snd (paginate en seg si ei cc lg) = lg @ reqs \<and>
           (\<forall>r \<in> set reqs. page_param r \<le> k))"
  using paginate_loop_empty_page [OF assms, of rows_all lg]
    paginate_loop_pages [OF _ assms, of 0 "[]" lg]
  by (simp add: paginate_def)

lemma paginate_loop_bounds:
  assumes "\<forall>p rows hn. fst (fetch_events_page en seg si ei p 200 cc []) = Inr (rows, hn)
             \<longrightarrow> length rows \<le> m"
    and "page \<le> 4"
  shows "length (snd (paginate_loop en seg si ei cc page rows_all lg)) \<le> length lg + (5 - page) \<and>
     (\<forall>rows. fst (paginate_loop en seg si ei cc page rows_all lg) = Inr rows \<longrightarrow>
        length rows \<le> length rows_all + (5 - page) * m)"
  using assms
proof (induction en seg si ei cc page rows_all lg rule: paginate_loop.induct)
  case (1 en seg si ei cc page rows_all lg)
  let ?req = "page_request (getenv_api_key en) seg si ei page 200 cc"
  show ?case
  proof (cases "fst (fetch_events_page en seg si ei page 200 cc [])")
    case (Inl err)
    then have "paginate_loop en seg si ei cc page rows_all lg = (Inl err, lg @ [?req])"
      by (subst paginate_loop.simps, subst fetch_split) simp
    with "1.prems"(2) show ?thesis by simp
  next
    case (Inr res)
    obtain page_rows hn where res: "res = (page_rows, hn)" by (cases res)
    from "1.prems"(1) Inr res have len: "length page_rows \<le> m" by blast
    have f: "fetch_events_page en seg si ei page 200 cc lg = (Inr (page_rows, hn), lg @ [?req])"
      using Inr res by (subst fetch_split) simp
    have "1 * m \<le> (5 - page) * m" using "1.prems"(2) by (intro mult_le_mono1) simp
    then have "m \<le> (5 - page) * m" by (simp only: mult_1)
    with len have m1: "length page_rows \<le> (5 - page) * m" by (rule order_trans)
    have l1: "length (lg @ [?req]) \<le> length lg + (5 - page)" using "1.prems"(2) by simp
    show ?thesis
    proof (cases "page_rows = []")
      case True
      then have "paginate_loop en seg si ei cc page rows_all lg = (Inr rows_all, lg @ [?req])"
        using f by (subst paginate_loop.simps) simp
      with l1 show ?thesis by simp
    next
      case ne: False
      show ?thesis
      proof (cases "\<not> hn \<or> (page + 1) * 200 \<ge> DEEP_PAGING_LIMIT")
        case True
        then have "paginate_loop en seg si ei cc page rows_all lg =
            (Inr (rows_all @ page_rows), lg @ [?req])"
          using f ne by (subst paginate_loop.simps) auto
        with l1 m1 show ?thesis by simp
      next
        case go: False
        then have p4: "page + 1 \<le> 4" by (simp add: DEEP_PAGING_LIMIT_def)
        have step: "paginate_loop en seg si ei cc page rows_all lg =
           paginate_loop en seg si ei cc (page + 1) (rows_all @ page_rows) (lg @ [?req])"
          using go ne f by (subst paginate_loop.simps) simp
        from p4 have "5 - page = Suc (5 - (page + 1))" by simp
        then have arith: "(5 - page) * m = m + (5 - (page + 1)) * m" by simp
        note ih = "1.IH" [OF f [symmetric] refl refl ne go "1.prems"(1) p4]
        from ih have "length (snd (paginate_loop en seg si ei cc page rows_all lg))
            \<le> length (lg @ [?req]) + (5 - (page + 1))"
          unfolding step by (rule conjunct1)
        with p4 have a: "length (snd (paginate_loop en seg si ei cc page rows_all lg)) \<le> length lg + (5 - page)"
          by simp
        have b: "length rows \<le> length rows_all + (5 - page) * m"
          if "fst (paginate_loop en seg si ei cc page rows_all lg) = Inr rows" for rows
        proof -
          from that ih have "length rows \<le> length (rows_all @ page_rows) + (5 - (page + 1)) * m"
            unfolding step by blast
          with len show ?thesis unfolding arith by simp
        qed
        from a b show ?thesis by blast
      qed
    qed
  qed
qed

lemma paginate_loop_requests:
  assumes "page \<le> 4"
  shows "length (snd (paginate_loop en seg si ei cc page rows_all lg)) \<le> length lg + (5 - page)"
  using assms
proof (induction en seg si ei cc page rows_all lg rule: paginate_loop.induct)
  case (1 en seg si ei cc page rows_all lg)
  let ?req = "page_request (getenv_api_key en) seg si ei page 200 cc"
  have l1: "length (lg @ [?req]) \<le> length lg + (5 - page)" using "1.prems" by simp
  show ?case
  proof (cases "fst (fetch_events_page en seg si ei page 200 cc [])")
    case (Inl err)
    then have "paginate_loop en seg si ei cc page rows_all lg = (Inl err, lg @ [?req])"
      by (subst paginate_loop.simps, subst fetch_split) simp
    with l1 show ?thesis by simp
  next
    case (Inr res)
    obtain page_rows hn where res: "res = (page_rows, hn)" by (cases res)
    have f: "fetch_events_page en seg si ei page 200 cc lg = (Inr (page_rows, hn), lg @ [?req])"
      using Inr res by (subst fetch_split) simp
    show ?thesis
    proof (cases "page_rows = [] \<or> \<not> hn \<or> (page + 1) * 200 \<ge> DEEP_PAGING_LIMIT")
      case True
      then have "snd (paginate_loop en seg si ei cc page rows_all lg) = lg @ [?req]"
        using f by (subst paginate_loop.simps) auto
      with l1 show ?thesis by simp
    next
      case go: False
      then have ne: "page_rows \<noteq> []"
        and c2: "\<not> (\<not> hn \<or> DEEP_PAGING_LIMIT \<le> (page + 1) * 200)"
        by auto
      from go have p4: "page + 1 \<le> 4" by (simp add: DEEP_PAGING_LIMIT_def)
      have step: "paginate_loop en seg si ei cc page rows_all lg =
         paginate_loop en seg si ei cc (page + 1) (rows_all @ page_rows) (lg @ [?req])"
        using go f by (subst paginate_loop.simps) simp
      from "1.IH" [OF f [symmetric] refl refl ne c2 p4]
      have "length (snd (paginate_loop en seg si ei cc page rows_all lg))
          \<le> length (lg @ [?req]) + (5 - (page + 1))"
        unfolding step .
      with p4 show ?thesis by simp
    qed
  qed
qed

text \<open>
  C4, amended. The loop tests the page index, not the number of rows. Whatever the
  responses are, a run of \<^verbatim>\<open>paginate\<close> sends at most five requests; and when no page
  returns more than the 200 records asked for, it accumulates at most
  \<open>DEEP_PAGING_LIMIT\<close> = 1000 records.
\<close>

theorem paginate_at_most_limit:
  "length (snd (paginate en seg si ei cc lg)) \<le> length lg + 5
   \<and> ((\<forall>p rows hn. fst (fetch_events_page en seg si ei p 200 cc []) = Inr (rows, hn)
          \<longrightarrow> length rows \<le> 200) \<longrightarrow>
      (\<forall>rows. fst (paginate en seg si ei cc lg) = Inr rows \<longrightarrow> length rows \<le> DEEP_PAGING_LIMIT))"
proof -
  have reqs: "length (snd (paginate en seg si ei cc lg)) \<le> length lg + 5"
    using paginate_loop_requests [of 0 en seg si ei cc "[]" lg] by (simp add: paginate_def)
  have rows: "\<forall>rows. fst (paginate en seg si ei cc lg) = Inr rows \<longrightarrow> length rows \<le> DEEP_PAGING_LIMIT"
    if h: "\<forall>p rows hn. fst (fetch_events_page en seg si ei p 200 cc []) = Inr (rows, hn)
          \<longrightarrow> length rows \<le> 200"
    using paginate_loop_bounds [OF h, of 0 "[]" lg]
    by (simp add: paginate_def DEEP_PAGING_LIMIT_def)
  from reqs rows show ?thesis by blast
qed

lemma map_raise_replicate:
  "f x = Inr y \<Longrightarrow> map_raise f (replicate n x) = Inr (replicate n y)"
  by (induction n) (simp_all add: and_then_def)

lemma normalize_row_empty:
  "normalize_row (JObj []) =
     Inr [(''event_id'', JNull), (''event_name'', JNull), (''local_date'', JNull),
          (''local_time'', JNull), (''city'', JNull), (''country'', JNull),
          (''venue_name'', JNull), (''genre_name'', JNull), (''subgenre_name'', JNull),
          (''artist_primary'', JNull), (''artists'', JNull), (''url'', JNull)]"
  by (simp add: normalize_row_def and_then_def py_or_def extract_artists_def attraction_names_def)

text \<open>
  C4, as stated, bounds the accumulated records however many a page returns. One page of
  1001 events and no next link is accumulated whole.
\<close>

theorem paginate_over_limit:
  "(case fst (paginate
       \<lparr> getenv_api_key = Some ''key'', strptime = (\<lambda>s. Inl ValueError), strftime = (\<lambda>d. []),
         urlopen_json = (\<lambda>req. Inr (JObj [(''_embedded'',
            JObj [(''events'', JArr (replicate 1001 (JObj [])))])])),
         str_of = (\<lambda>v. []) \<rparr>
       ''music'' ''2025-10-01T00:00:00Z'' ''2026-07-01T23:59:59Z'' None []) of
      Inl err \<Rightarrow> 0 | Inr rows \<Rightarrow> length rows) = 1001"
  unfolding paginate_def
  by (subst paginate_loop.simps)
     (simp add: fetch_events_page_def and_then_def py_or_def
        map_raise_replicate [of normalize_row "JObj []", OF normalize_row_empty])


text \<open>
  A service that reports a next page on every response and has one event on page 0 and
  none afterwards: the run returns the one row and has asked for pages 0 and 1.
\<close>

theorem paginate_stops_at_empty_page_witness:
  "fst (fetch_events_page
      \<lparr> getenv_api_key = Some ''key'', strptime = (\<lambda>s. Inl ValueError), strftime = (\<lambda>d. []),
        urlopen_json = (\<lambda>req. Inr (JObj
          [(''_embedded'', JObj [(''events'',
              JArr (if page_param req = 0 then [JObj [(''id'', JStr ''E1'')]] else []))]),
           (''_links'', JObj [(''next'', JObj [(''href'', JStr ''/more'')])])])),
        str_of = (\<lambda>v. []) \<rparr>
      ''music'' ''2025-10-01T00:00:00Z'' ''2026-07-01T23:59:59Z'' 1 200 None []) = Inr ([], True)
   \<and> paginate
      \<lparr> getenv_api_key = Some ''key'', strptime = (\<lambda>s. Inl ValueError), strftime = (\<lambda>d. []),
        urlopen_json = (\<lambda>req. Inr (JObj
          [(''_embedded'', JObj [(''events'',
              JArr (if page_param req = 0 then [JObj [(''id'', JStr ''E1'')]] else []))]),
           (''_links'', JObj [(''next'', JObj [(''href'', JStr ''/more'')])])])),
        str_of = (\<lambda>v. []) \<rparr>
      ''music'' ''2025-10-01T00:00:00Z'' ''2026-07-01T23:59:59Z'' None [] =
     (Inr [[(''event_id'', JStr ''E1''), (''event_name'', JNull), (''local_date'', JNull),
            (''local_time'', JNull), (''city'', JNull), (''country'', JNull),
            (''venue_name'', JNull), (''genre_name'', JNull), (''subgenre_name'', JNull),
            (''artist_primary'', JNull), (''artists'', JNull), (''url'', JNull)]],
      [page_request (Some ''key'') ''music'' ''2025-10-01T00:00:00Z'' ''2026-07-01T23:59:59Z'' 0 200 None,
       page_request (Some ''key'') ''music'' ''2025-10-01T00:00:00Z'' ''2026-07-01T23:59:59Z'' 1 200 None])"
proof -
  let ?en = "\<lparr> getenv_api_key = Some ''key'', strptime = (\<lambda>s. Inl ValueError), strftime = (\<lambda>d. []),
        urlopen_json = (\<lambda>req. Inr (JObj
          [(''_embedded'', JObj [(''events'',
              JArr (if page_param req = 0 then [JObj [(''id'', JStr ''E1'')]] else []))]),
           (''_links'', JObj [(''next'', JObj [(''href'', JStr ''/more'')])])])),
        str_of = (\<lambda>v. []) \<rparr>"
  let ?si = "''2025-10-01T00:00:00Z''" and ?ei = "''2026-07-01T23:59:59Z''"
  let ?r = "[(''event_id'', JStr ''E1''), (''event_name'', JNull), (''local_date'', JNull),
            (''local_time'', JNull), (''city'', JNull), (''country'', JNull),
            (''venue_name'', JNull), (''genre_name'', JNull), (''subgenre_name'', JNull),
            (''artist_primary'', JNull), (''artists'', JNull), (''url'', JNull)]"
  have p1: "fst (fetch_events_page ?en ''music'' ?si ?ei 1 200 None []) = Inr ([], True)"
    by (simp add: fetch_events_page_def page_request_def and_then_def py_or_def)
  have p0: "fetch_events_page ?en ''music'' ?si ?ei 0 200 None [] =
      (Inr ([?r], True), [page_request (Some ''key'') ''music'' ?si ?ei 0 200 None])"
    by (simp add: fetch_events_page_def page_request_def and_then_def py_or_def normalize_row_def
          extract_artists_def attraction_names_def)
  have step: "paginate ?en ''music'' ?si ?ei None [] =
      paginate_loop ?en ''music'' ?si ?ei None 1 [?r] [page_request (Some ''key'') ''music'' ?si ?ei 0 200 None]"
    unfolding paginate_def
    by (subst paginate_loop.simps) (simp add: p0 DEEP_PAGING_LIMIT_def)
  from paginate_stops_at_empty_page [OF p1, of "[?r]" "[page_request (Some ''key'') ''music'' ?si ?ei 0 200 None]"]
  have "paginate_loop ?en ''music'' ?si ?ei None 1 [?r] [page_request (Some ''key'') ''music'' ?si ?ei 0 200 None] =
     (Inr [?r], [page_request (Some ''key'') ''music'' ?si ?ei 0 200 None, page_request (Some ''key'') ''music'' ?si ?ei 1 200 None])"
    by simp
  with step p1 show ?thesis by (simp only:) 
qed

text \<open>
  A service with one event and a next link on every page: five requests, five rows.
\<close>

theorem paginate_at_most_limit_witness:
  "fst (paginate
      \<lparr> getenv_api_key = Some ''key'', strptime = (\<lambda>s. Inl ValueError), strftime = (\<lambda>d. []),
        urlopen_json = (\<lambda>req. Inr (JObj
          [(''_embedded'', JObj [(''events'', JArr [JObj []])]),
           (''_links'', JObj [(''next'', JObj [(''href'', JStr ''/more'')])])])),
        str_of = (\<lambda>v. []) \<rparr>
      ''music'' ''2025-10-01T00:00:00Z'' ''2026-07-01T23:59:59Z'' None []) =
     Inr (replicate 5 [(''event_id'', JNull), (''event_name'', JNull), (''local_date'', JNull),
            (''local_time'', JNull), (''city'', JNull), (''country'', JNull),
            (''venue_name'', JNull), (''genre_name'', JNull), (''subgenre_name'', JNull),
            (''artist_primary'', JNull), (''artists'', JNull), (''url'', JNull)])
   \<and> (5::nat) \<le> DEEP_PAGING_LIMIT
   \<and> length (snd (paginate
      \<lparr> getenv_api_key = Some ''key'', strptime = (\<lambda>s. Inl ValueError), strftime = (\<lambda>d. []),
        urlopen_json = (\<lambda>req. Inr (JObj
          [(''_embedded'', JObj [(''events'', JArr [JObj []])]),
           (''_links'', JObj [(''next'', JObj [(''href'', JStr ''/more'')])])])),
        str_of = (\<lambda>v. []) \<rparr>
      ''music'' ''2025-10-01T00:00:00Z'' ''2026-07-01T23:59:59Z'' None [])) \<le> 5"
proof -
  let ?en = "\<lparr> getenv_api_key = Some ''key'', strptime = (\<lambda>s. Inl ValueError), strftime = (\<lambda>d. []),
        urlopen_json = (\<lambda>req. Inr (JObj
          [(''_embedded'', JObj [(''events'', JArr [JObj []])]),
           (''_links'', JObj [(''next'', JObj [(''href'', JStr ''/more'')])])])),
        str_of = (\<lambda>v. []) \<rparr>"
  let ?si = "''2025-10-01T00:00:00Z''" and ?ei = "''2026-07-01T23:59:59Z''"
  let ?r = "[(''event_id'', JNull), (''event_name'', JNull), (''local_date'', JNull),
            (''local_time'', JNull), (''city'', JNull), (''country'', JNull),
            (''venue_name'', JNull), (''genre_name'', JNull), (''subgenre_name'', JNull),
            (''artist_primary'', JNull), (''artists'', JNull), (''url'', JNull)]"
  have page: "fetch_events_page ?en ''music'' ?si ?ei p 200 None lg =
      (Inr ([?r], True), lg @ [page_request (Some ''key'') ''music'' ?si ?ei p 200 None])" for p lg
    by (simp add: fetch_events_page_def and_then_def py_or_def normalize_row_empty)
  then have h: "\<forall>p rows hn. fst (fetch_events_page ?en ''music'' ?si ?ei p 200 None []) = Inr (rows, hn)
      \<longrightarrow> length rows \<le> 200"
    by simp
  have rep: "replicate 5 ?r = [?r, ?r, ?r, ?r, ?r]"
    by (simp add: numeral_eq_Suc)
  have "fst (paginate ?en ''music'' ?si ?ei None []) = Inr [?r, ?r, ?r, ?r, ?r]"
    by (simp add: paginate_def paginate_loop.simps page DEEP_PAGING_LIMIT_def)
  then have run: "fst (paginate ?en ''music'' ?si ?ei None []) = Inr (replicate 5 ?r)"
    by (simp only: rep)
  from paginate_at_most_limit [of ?en "''music''" ?si ?ei None "[]"] h run show ?thesis
    by simp
qed

section \<open>Properties of the country filter\<close>









text \<open>
  The labels must not be empty: under the allow-list \<^verbatim>\<open>[""]\<close> a row without a country is
  kept. \<^verbatim>\<open>parse_list\<close> drops empty items, so a run never passes such a list.
\<close>

lemma filter_by_countries_empty_label:
  "filter_by_countries [[(''event_id'', JStr ''E1''), (''country'', JNull)]] (Some [Some []]) None =
     Inr [[(''event_id'', JStr ''E1''), (''country'', JNull)]]"
  by (simp add: filter_by_countries_def label_set_def label_lower_def py_lower_def
        row_country_def py_or_def py_strip_def and_then_def)

text \<open>
  The lists that a run passes to the filter hold no empty label: the default allow-list has
  none, and \<^verbatim>\<open>parse_list\<close> keeps only the items that are not empty after trimming, which
  the synonym table maps to labels that are not empty.
\<close>

lemma normalize_country_label_nonempty: "name \<noteq> [] \<Longrightarrow> normalize_country_label name \<noteq> []"
  by (auto simp: normalize_country_label_def COUNTRY_NORMALIZE_def Let_def split: if_splits)

lemma parse_list_nonempty:
  assumes "[] \<notin> set default_list"
  shows "[] \<notin> set (parse_list arg_val default_list)"
proof (cases arg_val)
  case None
  with assms show ?thesis by (simp add: parse_list_def)
next
  case (Some val)
  have "normalize_country_label (py_strip x) \<noteq> []" if "py_strip x \<noteq> []" for x
    using that by (rule normalize_country_label_nonempty)
  then have "\<forall>l \<in> set (parse_list arg_val default_list). l \<noteq> []"
    by (auto simp: parse_list_def Some)
  then show ?thesis by blast
qed

lemma label_set_labels: "[] \<notin> set ls \<Longrightarrow> [] \<notin> label_set (Some (map Some ls))"
  by (auto simp: label_set_def label_lower_def py_lower_def)

lemma main_labels_nonempty:
  "[] \<notin> label_set (Some (map Some (parse_list arg_val DEFAULT_ALLOWED)))"
  "[] \<notin> label_set (Some (map Some (parse_list arg_val [])))"
  by (rule label_set_labels, rule parse_list_nonempty, simp add: DEFAULT_ALLOWED_def)+


section \<open>Properties of a run\<close>

text \<open>
  C8. When both date arguments are given and parse, and the end date is before the start
  date, \<^verbatim>\<open>ensure_dates\<close> raises ValueError and the run ends there: no request has been
  sent and no file has been written, the world is as it was.
\<close>

theorem main_rejects_reversed_dates:
  assumes "start_date a = Some s" and "s \<noteq> []" and "end_date a = Some t" and "t \<noteq> []"
    and "strptime en s = Inr d1" and "strptime en t = Inr d2" and "date_less d2 d1"
  shows "ensure_dates en a = Inl ValueError \<and> main en a w = (Inl ValueError, w)"
proof -
  have e: "ensure_dates en a = Inl ValueError"
    using assms by (simp add: ensure_dates_def and_then_def)
  then show ?thesis by (simp add: main_def)
qed

text \<open>
  A run from 2025-12-31 to 2025-01-01.
\<close>

theorem main_rejects_reversed_dates_witness:
  "main \<lparr> getenv_api_key = Some ''key'',
           strptime = (\<lambda>s. if s = ''2025-12-31'' then Inr (Date 2025 12 31)
                            else if s = ''2025-01-01'' then Inr (Date 2025 1 1)
                            else Inl ValueError),
           strftime = (\<lambda>d. []),
           urlopen_json = (\<lambda>req. Inr (JObj [])),
           str_of = (\<lambda>v. []) \<rparr>
        \<lparr> start_date = Some ''2025-12-31'', end_date = Some ''2025-01-01'', out = ''events.csv'',
          segment = ''music'', no_il = False, allowed_countries = None, blocked_countries = None \<rparr>
        \<lparr> net_log = [], files = Map.empty \<rparr> =
     (Inl ValueError, \<lparr> net_log = [], files = Map.empty \<rparr>)"
  using main_rejects_reversed_dates [of
        "\<lparr> start_date = Some ''2025-12-31'', end_date = Some ''2025-01-01'', out = ''events.csv'',
          segment = ''music'', no_il = False, allowed_countries = None, blocked_countries = None \<rparr>"
        "''2025-12-31''" "''2025-01-01''"
        "\<lparr> getenv_api_key = Some ''key'',
           strptime = (\<lambda>s. if s = ''2025-12-31'' then Inr (Date 2025 12 31)
                            else if s = ''2025-01-01'' then Inr (Date 2025 1 1)
                            else Inl ValueError),
           strftime = (\<lambda>d. []),
           urlopen_json = (\<lambda>req. Inr (JObj [])),
           str_of = (\<lambda>v. []) \<rparr>"
        "Date 2025 12 31" "Date 2025 1 1" "\<lparr> net_log = [], files = Map.empty \<rparr>"]
  by simp

text \<open>
  C1. The end-to-end example. The service answers the first request of the global scope
  with the one event of the example and no next link; the region pass is switched off and
  no country list is given, so the allow-list is \<open>DEFAULT_ALLOWED\<close> and the block-list is
  empty. The run sends that one request and writes the header line and one data row.
\<close>

theorem end_to_end_example:
  assumes key: "getenv_api_key en = Some k" "k \<noteq> []"
    and dates: "ensure_dates en a = Inr (sd, ed)"
    and opts: "no_il a" "allowed_countries a = None" "blocked_countries a = None"
    and resp: "urlopen_json en
        (page_request (getenv_api_key en) (segment a) (fst (to_iso_range en sd ed)) (snd (to_iso_range en sd ed)) 0 200 None) =
      Inr (JObj [(''_embedded'', JObj [(''events'', JArr [
        JObj [(''id'', JStr ''E1''), (''name'', JStr ''Show''),
          (''_embedded'', JObj [(''venues'', JArr [JObj [(''name'', JStr ''Hall''),
                                    (''city'', JObj [(''name'', JStr ''Tel Aviv'')]),
                                    (''country'', JObj [(''name'', JStr ''Israel'')])]]),
                             (''attractions'', JArr [JObj [(''name'', JStr ''Band A'')]])]),
          (''classifications'', JArr [JObj [(''genre'', JObj [(''name'', JStr ''Rock'')])]]),
          (''dates'', JObj [(''start'', JObj [(''localDate'', JStr ''2025-11-01''),
                                          (''localTime'', JStr ''20:00:00'')])]),
          (''url'', JStr ''http://x'')]])])])"
  shows "main en a w =
    (Inr (), w\<lparr>net_log := net_log w @
        [page_request (getenv_api_key en) (segment a) (fst (to_iso_range en sd ed)) (snd (to_iso_range en sd ed)) 0 200 None],
      files := (files w)(out a \<mapsto>
        [''event_id,event_name,local_date,local_time,city,country,venue_name,genre_name,subgenre_name,artist_primary,artists,url'',
         ''E1,Show,2025-11-01,20:00:00,Tel Aviv,Israel,Hall,Rock,,Band A,Band A,http://x''])\<rparr>)"
proof -
  let ?row = "[(''event_id'', JStr ''E1''), (''event_name'', JStr ''Show''),
     (''local_date'', JStr ''2025-11-01''), (''local_time'', JStr ''20:00:00''),
     (''city'', JStr ''Tel Aviv''), (''country'', JStr ''Israel''),
     (''venue_name'', JStr ''Hall''), (''genre_name'', JStr ''Rock''),
     (''subgenre_name'', JNull), (''artist_primary'', JStr ''Band A''),
     (''artists'', JStr ''Band A''), (''url'', JStr ''http://x'')]"
  obtain si ei where iso: "to_iso_range en sd ed = (si, ei)"
    by (cases "to_iso_range en sd ed")
  have page: "paginate en (segment a) si ei None (net_log w) =
     (Inr [?row], net_log w @ [page_request (getenv_api_key en) (segment a) si ei 0 200 None])"
    using resp iso unfolding paginate_def
    by (subst paginate_loop.simps)
       (simp add: fetch_events_page_def and_then_def py_or_def normalize_row_def
          extract_artists_def attraction_names_def)
  have dedup: "deduplicate [?row] [] = Inr [?row]"
    by (simp add: deduplicate_def and_then_def row_key_def py_item_def)
  have filt: "filter_by_countries [?row]
      (Some (map Some (parse_list None DEFAULT_ALLOWED))) (Some (map Some (parse_list None []))) =
    Inr [?row]"
    by (simp add: filter_by_countries_def parse_list_def DEFAULT_ALLOWED_def label_set_def
         label_lower_def py_lower_def lower_char_def upper_chars_def lower_chars_def
         row_country_def py_or_def py_strip_def py_isspace_def and_then_def)
  have csv: "write_csv en (out a) [?row] (w\<lparr>net_log := lg\<rparr>) =
     (Inr (), w\<lparr>net_log := lg, files := (files w)(out a \<mapsto>
        [''event_id,event_name,local_date,local_time,city,country,venue_name,genre_name,subgenre_name,artist_primary,artists,url'',
         ''E1,Show,2025-11-01,20:00:00,Tel Aviv,Israel,Hall,Rock,,Band A,Band A,http://x''])\<rparr>)" for lg
    by (simp add: write_csv_def dict_to_list_def headers_def csv_line_def cell_text_def csv_field_def)
  show ?thesis
    using key dates opts iso page dedup filt csv
    by (simp add: main_def)
qed

text \<open>
  A run with the default dates.
\<close>

theorem end_to_end_example_witness:
  "main \<lparr> getenv_api_key = Some ''key'', strptime = (\<lambda>s. Inl ValueError),
           strftime = (\<lambda>d. ''2025-10-01''),
           urlopen_json = (\<lambda>req. Inr (JObj [(''_embedded'', JObj [(''events'', JArr [
        JObj [(''id'', JStr ''E1''), (''name'', JStr ''Show''),
          (''_embedded'', JObj [(''venues'', JArr [JObj [(''name'', JStr ''Hall''),
                                    (''city'', JObj [(''name'', JStr ''Tel Aviv'')]),
                                    (''country'', JObj [(''name'', JStr ''Israel'')])]]),
                             (''attractions'', JArr [JObj [(''name'', JStr ''Band A'')]])]),
          (''classifications'', JArr [JObj [(''genre'', JObj [(''name'', JStr ''Rock'')])]]),
          (''dates'', JObj [(''start'', JObj [(''localDate'', JStr ''2025-11-01''),
                                          (''localTime'', JStr ''20:00:00'')])]),
          (''url'', JStr ''http://x'')]])])])),
           str_of = (\<lambda>v. []) \<rparr>
        \<lparr> start_date = None, end_date = None, out = ''events.csv'',
          segment = ''music'', no_il = True, allowed_countries = None, blocked_countries = None \<rparr>
        \<lparr> net_log = [], files = Map.empty \<rparr> =
     (Inr (), \<lparr> net_log = [page_request (Some ''key'') ''music'' ''2025-10-01T00:00:00Z'' ''2025-10-01T23:59:59Z'' 0 200 None],
        files = [''events.csv'' \<mapsto>
        [''event_id,event_name,local_date,local_time,city,country,venue_name,genre_name,subgenre_name,artist_primary,artists,url'',
         ''E1,Show,2025-11-01,20:00:00,Tel Aviv,Israel,Hall,Rock,,Band A,Band A,http://x'']] \<rparr>)"
  using end_to_end_example [of
     "\<lparr> getenv_api_key = Some ''key'', strptime = (\<lambda>s. Inl ValueError),
           strftime = (\<lambda>d. ''2025-10-01''),
           urlopen_json = (\<lambda>req. Inr (JObj [(''_embedded'', JObj [(''events'', JArr [
        JObj [(''id'', JStr ''E1''), (''name'', JStr ''Show''),
          (''_embedded'', JObj [(''venues'', JArr [JObj [(''name'', JStr ''Hall''),
                                    (''city'', JObj [(''name'', JStr ''Tel Aviv'')]),
                                    (''country'', JObj [(''name'', JStr ''Israel'')])]]),
                             (''attractions'', JArr [JObj [(''name'', JStr ''Band A'')]])]),
          (''classifications'', JArr [JObj [(''genre'', JObj [(''name'', JStr ''Rock'')])]]),
          (''dates'', JObj [(''start'', JObj [(''localDate'', JStr ''2025-11-01''),
                                          (''localTime'', JStr ''20:00:00'')])]),
          (''url'', JStr ''http://x'')]])])])),
           str_of = (\<lambda>v. []) \<rparr>"
     "''key''"
     "\<lparr> start_date = None, end_date = None, out = ''events.csv'',
          segment = ''music'', no_il = True, allowed_countries = None, blocked_countries = None \<rparr>"
     "Date 2025 10 1" "Date 2026 7 1" "\<lparr> net_log = [], files = Map.empty \<rparr>"]
  by (simp add: ensure_dates_def and_then_def to_iso_range_def)

end
